theory Spec2Isabelle
  imports Complex_Main
begin

section \<open>Multi-tissue log-domain intensity normalisation (cmd/mtlognorm.cpp)\<close>


text \<open>
  A sample of the log-domain volume is either a finite number or not finite (an infinity
  or a NaN): the logarithm of a number that is not positive is not finite, and neither is
  anything computed from a sample that is not finite.
\<close>

datatype sample = Fin real | NonFin

fun sadd :: "sample \<Rightarrow> real \<Rightarrow> sample" where
  "sadd (Fin a) x = Fin (a + x)"
| "sadd NonFin x = NonFin"

fun slog :: "sample \<Rightarrow> sample" where
  "slog (Fin a) = (if 0 < a then Fin (ln a) else NonFin)"
| "slog NonFin = NonFin"

datatype error =
    OddArguments
  | TooFewTissues
  | DimensionMismatch
  | OutputExists
  | EmptyMask
  | NonPositiveNormalisationValue
  | NonPositiveScaleFactor nat real
  | IndexOutOfRange nat nat

text \<open>The lines that \<open>INFO\<close> writes.\<close>

datatype event =
    Iteration nat
  | NormIteration nat
  | PercentageChange real
  | ScaleFactors "real list"

subsection \<open>The polynomial basis\<close>

definition n_basis_vecs :: nat where
  "n_basis_vecs = 20"

fun basis_function :: "real \<times> real \<times> real \<Rightarrow> real list" where
  "basis_function (x, y, z) =
     [1, x, y, z,
      x * x, y * y, z * z,
      x * y, x * z, y * z,
      x * x * x, y * y * y, z * z * z,
      x * x * y, x * x * z,
      y * y * x, y * y * z,
      z * z * x, z * z * y,
      x * y * z]"

subsection \<open>Mask refinement\<close>

fun positive_finite :: "sample \<Rightarrow> bool" where
  "positive_finite (Fin a) = (0 < a)"
| "positive_finite NonFin = False"

definition refine_mask :: "sample list \<Rightarrow> bool list \<Rightarrow> bool list" where
  "refine_mask summed initial_mask =
     map (\<lambda>v. positive_finite (summed ! v) \<and> initial_mask ! v) [0..<length summed]"

definition count_true :: "bool list \<Rightarrow> nat" where
  "count_true m = length (filter (\<lambda>b. b) m)"

subsection \<open>What the command takes from outside\<close>

text \<open>
  \<open>qr_solve X y\<close> is \<open>X.colPivHouseholderQr().solve(y)\<close> of the Eigen library, with the
  matrix given by its rows. \<open>voxel2scanner\<close> gives the scanner position of every voxel,
  from the transform of the image header. \<open>loop_rest\<close> is the voxel at which a voxel
  loop (\<open>algo/loop.h\<close>) leaves an image once it has visited every voxel; a position
  beyond the last voxel is a position outside the volume.
\<close>

record env =
  qr_solve :: "real list list \<Rightarrow> sample list \<Rightarrow> real list"
  voxel2scanner :: "(real \<times> real \<times> real) list"
  loop_rest :: nat

text \<open>What is fixed before the outer loop starts.\<close>

record problem =
  combined_tissue :: "real list list"
  initial_mask :: "bool list"
  n_tissue_types :: nat
  log_norm_value :: real
  max_iter :: nat

text \<open>What the loops change.\<close>

record state =
  mask_img :: "bool list"
  num_voxels :: nat
  scale_factors :: "real list"
  previous_scale_factors :: "real list"
  bias_field_weights :: "real list"
  bias_field_image :: "real list"
  bias_field_log :: "real list"
  info :: "event list"

subsection \<open>Solving for the scale factors\<close>

text \<open>One row for every voxel of the mask, one column for every tissue.\<close>

definition design_matrix :: "real list list \<Rightarrow> real list \<Rightarrow> bool list \<Rightarrow> real list list" where
  "design_matrix tissues bias m =
     concat (map (\<lambda>v. if m ! v then [map (\<lambda>j. tissues ! j ! v / bias ! v) [0..<length tissues]]
                       else [])
                 [0..<length m])"

definition solve_scale_factors :: "env \<Rightarrow> problem \<Rightarrow> state \<Rightarrow> real list" where
  "solve_scale_factors E P st =
     qr_solve E (design_matrix (combined_tissue P) (bias_field_image st) (mask_img st))
                (replicate (num_voxels st) (Fin 1))"

text \<open>
  The loop over the solved factors: it throws at the first factor that is not positive,
  and adds up the logarithms of the others. The solved vector has one factor for every
  column of the matrix.
\<close>

fun log_sum_loop :: "real list \<Rightarrow> nat \<Rightarrow> real \<Rightarrow> error + real" where
  "log_sum_loop [] j log_sum = Inr log_sum"
| "log_sum_loop (c # cs) j log_sum =
     (if c \<le> 0 then Inl (NonPositiveScaleFactor j c)
      else log_sum_loop cs (Suc j) (log_sum + ln c))"

definition renormalise :: "nat \<Rightarrow> real list \<Rightarrow> error + real list" where
  "renormalise n sf =
     (case log_sum_loop sf 0 0 of
        Inl e \<Rightarrow> Inl e
      | Inr log_sum \<Rightarrow> Inr (map (\<lambda>c. c / exp (log_sum / real n)) sf))"

text \<open>The mean relative change of the factors, for the convergence test.\<close>

definition mean_change :: "real list \<Rightarrow> real list \<Rightarrow> real" where
  "mean_change previous current =
     (let diff = map (\<lambda>(p, c). \<bar>p - c\<bar> / p) (zip previous current)
      in sum_list diff / real (length diff))"

subsection \<open>The log-domain summed volume\<close>

text \<open>
  For one tissue: the voxel loop adds the scaled, bias-divided tissue to every voxel; the
  statement that follows the loop takes the logarithm of the sample at which the loop
  has left the volume.
\<close>

definition summed_log_tissue :: "nat \<Rightarrow> real \<Rightarrow> real list \<Rightarrow> real list \<Rightarrow> sample list \<Rightarrow> sample list" where
  "summed_log_tissue rest c tissue bias summed_log =
     (let added = map (\<lambda>v. sadd (summed_log ! v) (c * (tissue ! v) / (bias ! v)))
                      [0..<length summed_log]
      in if rest < length added then added[rest := slog (added ! rest)] else added)"

definition compute_summed_log :: "nat \<Rightarrow> real list \<Rightarrow> real list list \<Rightarrow> real list \<Rightarrow> sample list" where
  "compute_summed_log rest sf tissues bias =
     fold (\<lambda>j summed_log. summed_log_tissue rest (sf ! j) (tissues ! j) bias summed_log)
          [0..<length tissues]
          (replicate (length bias) (Fin 0))"

subsection \<open>Outlier rejection\<close>

text \<open>\<open>std::round\<close>: to the nearest integer, halfway cases away from zero.\<close>

definition cround :: "real \<Rightarrow> int" where
  "cround x = (if 0 \<le> x then \<lfloor>x + 1 / 2\<rfloor> else \<lceil>x - 1 / 2\<rceil>)"

definition lower_index :: "nat \<Rightarrow> nat" where
  "lower_index n = nat (cround (real n * 0.25))"

definition upper_index :: "nat \<Rightarrow> nat" where
  "upper_index n = nat (cround (real n * 0.75))"

text \<open>
  The values of the volume at the voxels of the mask. Mask refinement has just removed
  every voxel whose sample is not finite, so every value collected is a number.
\<close>

definition summed_log_values :: "sample list \<Rightarrow> bool list \<Rightarrow> real list" where
  "summed_log_values summed_log m =
     concat (map (\<lambda>v. if m ! v then (case summed_log ! v of Fin a \<Rightarrow> [a] | NonFin \<Rightarrow> [])
                       else [])
                 [0..<length m])"

definition upper_outlier_threshold :: "real \<Rightarrow> real \<Rightarrow> real" where
  "upper_outlier_threshold lower_quartile upper_quartile =
     upper_quartile + 1.6 * (upper_quartile - lower_quartile)"

definition lower_outlier_threshold :: "real \<Rightarrow> real \<Rightarrow> real" where
  "lower_outlier_threshold lower_quartile upper_quartile =
     lower_quartile - 1.6 * (upper_quartile - lower_quartile)"

text \<open>The comparison with the fences. It is only made at voxels of the mask, where the
  sample is finite.\<close>

fun outside :: "real \<Rightarrow> real \<Rightarrow> sample \<Rightarrow> bool" where
  "outside lo up (Fin a) = (a < lo \<or> up < a)"
| "outside lo up NonFin = False"

text \<open>The second loop over the mask: one voxel.\<close>

definition reject_voxel :: "sample list \<Rightarrow> real \<Rightarrow> real \<Rightarrow> nat \<Rightarrow> bool list \<times> nat \<Rightarrow> bool list \<times> nat" where
  "reject_voxel summed_log lo up v mn =
     (case mn of (m, n) \<Rightarrow>
        if m ! v then (if outside lo up (summed_log ! v) then (m[v := False], n - 1) else (m, n))
        else (m, n))"

definition outlier_rejection :: "sample list \<Rightarrow> bool list \<Rightarrow> error + bool list \<times> nat" where
  "outlier_rejection summed_log m =
     (let values = summed_log_values summed_log m;
          n = length values;
          sorted_values = sort values
      in if n \<le> lower_index n then Inl (IndexOutOfRange (lower_index n) n)
         else if n \<le> upper_index n then Inl (IndexOutOfRange (upper_index n) n)
         else
           let lower_quartile = sorted_values ! lower_index n;
               upper_quartile = sorted_values ! upper_index n;
               up = upper_outlier_threshold lower_quartile upper_quartile;
               lo = lower_outlier_threshold lower_quartile upper_quartile
           in Inr (fold (reject_voxel summed_log lo up) [0..<length m] (m, n)))"

subsection \<open>One pass of the inner loop\<close>

definition convergence_test :: "nat \<Rightarrow> real list \<Rightarrow> real list \<Rightarrow> bool \<times> event list" where
  "convergence_test iter previous current =
     (if 1 < iter
      then (mean_change previous current < 0.001,
            [PercentageChange (mean_change previous current * 100)])
      else (False, []))"

definition norm_iteration :: "env \<Rightarrow> problem \<Rightarrow> nat \<Rightarrow> nat \<Rightarrow> state \<Rightarrow> error + bool \<times> state" where
  "norm_iteration E P iter norm_iter st =
     (case renormalise (n_tissue_types P) (solve_scale_factors E P st) of
        Inl e \<Rightarrow> Inl e
      | Inr sf \<Rightarrow>
          (case convergence_test iter (previous_scale_factors st) sf of
             (norm_converged, lines) \<Rightarrow>
               let st1 = st\<lparr>scale_factors := sf, previous_scale_factors := sf,
                           info := info st @ [NormIteration norm_iter] @ lines\<rparr>
               in if norm_converged then Inr (True, st1)
                  else
                    let summed_log = compute_summed_log (loop_rest E) sf (combined_tissue P)
                                       (bias_field_image st);
                        refined = refine_mask summed_log (initial_mask P)
                    in (case outlier_rejection summed_log refined of
                          Inl e \<Rightarrow> Inl e
                        | Inr (m, n) \<Rightarrow> Inr (False, st1\<lparr>mask_img := m, num_voxels := n\<rparr>))))"

function norm_loop :: "env \<Rightarrow> problem \<Rightarrow> nat \<Rightarrow> nat \<Rightarrow> bool \<Rightarrow> state \<Rightarrow> error + state" where
  "norm_loop E P iter norm_iter norm_converged st =
     (if \<not> norm_converged \<and> norm_iter < max_iter P
      then (case norm_iteration E P iter norm_iter st of
              Inl e \<Rightarrow> Inl e
            | Inr (c, st') \<Rightarrow> norm_loop E P iter (norm_iter + 1) c st')
      else Inr st)"
  by pat_completeness auto
termination
  by (relation "measure (\<lambda>(E, P, iter, norm_iter, c, st). max_iter P - norm_iter)") auto

declare norm_loop.simps [simp del]

subsection \<open>The bias field\<close>

definition dot :: "real list \<Rightarrow> real list \<Rightarrow> real" where
  "dot a b = sum_list (map (\<lambda>(p, q). p * q) (zip a b))"

definition scaled_sum :: "real list \<Rightarrow> real list list \<Rightarrow> nat \<Rightarrow> real" where
  "scaled_sum sf tissues v = fold (\<lambda>j s. s + sf ! j * (tissues ! j ! v)) [0..<length tissues] 0"

definition bias_field_fit :: "env \<Rightarrow> problem \<Rightarrow> state \<Rightarrow> state" where
  "bias_field_fit E P st =
     (let voxels = filter (\<lambda>v. mask_img st ! v) [0..<length (mask_img st)];
          bias_field_basis = map (\<lambda>v. basis_function (voxel2scanner E ! v)) voxels;
          y = map (\<lambda>v. sadd (slog (Fin (scaled_sum (scale_factors st) (combined_tissue P) v)))
                             (- log_norm_value P)) voxels;
          weights = qr_solve E bias_field_basis y;
          field_log = map (\<lambda>v. dot (basis_function (voxel2scanner E ! v)) weights)
                          [0..<length (bias_field_log st)]
      in st\<lparr>bias_field_weights := weights, bias_field_log := field_log,
             bias_field_image := map exp field_log\<rparr>)"

subsection \<open>The outer loop\<close>

function outer_loop :: "env \<Rightarrow> problem \<Rightarrow> nat \<Rightarrow> state \<Rightarrow> error + state" where
  "outer_loop E P iter st =
     (if iter < max_iter P
      then (case norm_loop E P iter 1 False (st\<lparr>info := info st @ [Iteration iter]\<rparr>) of
              Inl e \<Rightarrow> Inl e
            | Inr st' \<Rightarrow>
                outer_loop E P (iter + 1)
                  (bias_field_fit E P (st'\<lparr>info := info st' @ [ScaleFactors (scale_factors st')]\<rparr>)))
      else Inr st)"
  by pat_completeness auto
termination
  by (relation "measure (\<lambda>(E, P, iter, st). max_iter P - iter)") auto

declare outer_loop.simps [simp del]

subsection \<open>The output\<close>

text \<open>The mean of the factors in the log domain, which replaces every factor unless
  the tissues are normalised independently.\<close>

definition log_domain_mean :: "real list \<Rightarrow> real" where
  "log_domain_mean sf = exp (fold (\<lambda>c mean. mean + ln c) sf 0 / real (length sf))"





subsection \<open>The command\<close>




definition DEFAULT_NORM_VALUE :: real where
  "DEFAULT_NORM_VALUE = 0.282094"




definition initial_state :: "real list \<Rightarrow> real list \<Rightarrow> bool list \<Rightarrow> state" where
  "initial_state uninit_scale uninit_previous m =
     \<lparr>mask_img = m, num_voxels = count_true m,
      scale_factors = uninit_scale, previous_scale_factors = uninit_previous,
      bias_field_weights = [],
      bias_field_image = replicate (length m) 1, bias_field_log = replicate (length m) 0,
      info = []\<rparr>"



subsection \<open>Reading the lines of \<open>INFO\<close>\<close>

fun iteration_lines :: "event list \<Rightarrow> nat list" where
  "iteration_lines [] = []"
| "iteration_lines (Iteration k # evs) = k # iteration_lines evs"
| "iteration_lines (e # evs) = iteration_lines evs"

fun norm_iteration_lines :: "event list \<Rightarrow> nat list" where
  "norm_iteration_lines [] = []"
| "norm_iteration_lines (NormIteration k # evs) = k # norm_iteration_lines evs"
| "norm_iteration_lines (e # evs) = norm_iteration_lines evs"

subsection \<open>An example\<close>

text \<open>
  Two tissues on eight voxels. Both tissues are zero at the first voxel, so the initial
  mask leaves it out. The solver of the example returns the least-squares solution of
  a system of two columns with right-hand side one, from its normal equations, and
  zero weights for the bias field.
\<close>

definition ex_tissue_0 :: "real list" where
  "ex_tissue_0 = [0, 14, 12, 6, 0, 6, 10, 0]"

definition ex_tissue_1 :: "real list" where
  "ex_tissue_1 = [0, 0, 30, 20, 10, 10, 10, 10]"

definition least_squares_2 :: "real list list \<Rightarrow> real list" where
  "least_squares_2 X =
     (let a = sum_list (map (\<lambda>r. r ! 0 * r ! 0) X);
          b = sum_list (map (\<lambda>r. r ! 0 * r ! 1) X);
          d = sum_list (map (\<lambda>r. r ! 1 * r ! 1) X);
          p = sum_list (map (\<lambda>r. r ! 0) X);
          q = sum_list (map (\<lambda>r. r ! 1) X)
      in [(d * p - b * q) / (a * d - b * b), (a * q - b * p) / (a * d - b * b)])"

definition ex_env :: env where
  "ex_env =
     \<lparr>qr_solve = (\<lambda>X y. if list_all (\<lambda>r. length r = 2) X then least_squares_2 X
                          else replicate n_basis_vecs 0),
      voxel2scanner = map (\<lambda>v. (real v, 0, 0)) [0..<8],
      loop_rest = 0\<rparr>"


definition ex_mask_0 :: "bool list" where
  "ex_mask_0 = [False, True, True, True, True, True, True, True]"

definition ex_problem :: "nat \<Rightarrow> problem" where
  "ex_problem n =
     \<lparr>combined_tissue = [ex_tissue_0, ex_tissue_1],
      initial_mask = ex_mask_0,
      n_tissue_types = 2,
      log_norm_value = ln DEFAULT_NORM_VALUE,
      max_iter = n\<rparr>"

definition ex_mask_1 :: "bool list" where
  "ex_mask_1 = [False, True, False, True, True, True, True, True]"

text \<open>The state at the start of the first inner loop, and after its first and second pass.\<close>

definition ex_state_0 :: state where
  "ex_state_0 = (initial_state [0, 0] [0, 0] ex_mask_0)\<lparr>info := [Iteration 1]\<rparr>"

definition ex_state_1 :: state where
  "ex_state_1 =
     ex_state_0\<lparr>mask_img := ex_mask_1, num_voxels := 6,
                scale_factors := [5 / 4, 4 / 5], previous_scale_factors := [5 / 4, 4 / 5],
                info := [Iteration 1, NormIteration 1]\<rparr>"

definition ex_state_2 :: state where
  "ex_state_2 =
     ex_state_0\<lparr>mask_img := ex_mask_0, num_voxels := 7,
                scale_factors := [1, 1], previous_scale_factors := [1, 1],
                info := [Iteration 1, NormIteration 1, NormIteration 2]\<rparr>"

text \<open>The log-domain volumes of the first and of the second pass.\<close>

definition ex_summed_log_0 :: "sample list" where
  "ex_summed_log_0 = [NonFin, Fin (35 / 2), Fin 39, Fin (47 / 2), Fin 8, Fin (31 / 2), Fin (41 / 2), Fin 8]"

definition ex_summed_log_1 :: "sample list" where
  "ex_summed_log_1 = [NonFin, Fin 14, Fin 42, Fin 26, Fin 10, Fin 16, Fin 20, Fin 10]"

text \<open>The state after the outer loop with an iteration limit of two, and what the
  command returns then.\<close>

definition ex_state_fit :: state where
  "ex_state_fit =
     bias_field_fit ex_env (ex_problem 2)
       (ex_state_1\<lparr>info := info ex_state_1 @ [ScaleFactors (scale_factors ex_state_1)]\<rparr>)"




text \<open>The normal equations of the system \<open>X c \<approx> 1\<close>: \<open>X\<^sup>T (X c - 1) = 0\<close>.\<close>

definition normal_equations :: "real list list \<Rightarrow> real list \<Rightarrow> bool" where
  "normal_equations X c =
     list_all (\<lambda>k. sum_list (map (\<lambda>r. r ! k * (dot r c - 1)) X) = 0) [0..<length c]"

section \<open>Properties\<close>

subsection \<open>Quartile indices\<close>

lemma lower_index_eq: "lower_index n = (n + 2) div 4"
proof -
  have "real n * 0.25 + 1 / 2 = real_of_int (int n + 2) / real_of_int 4"
    by simp
  then have "\<lfloor>real n * 0.25 + 1 / 2\<rfloor> = (int n + 2) div 4"
    by (simp only: floor_divide_of_int_eq)
  then show ?thesis
    by (simp add: lower_index_def cround_def nat_div_distrib nat_add_distrib)
qed

lemma upper_index_eq: "upper_index n = (3 * n + 2) div 4"
proof -
  have "real n * 0.75 + 1 / 2 = real_of_int (3 * int n + 2) / real_of_int 4"
    by simp
  then have "\<lfloor>real n * 0.75 + 1 / 2\<rfloor> = (3 * int n + 2) div 4"
    by (simp only: floor_divide_of_int_eq)
  then show ?thesis
    by (simp add: upper_index_def cround_def nat_div_distrib nat_add_distrib nat_mult_distrib)
qed

subsection \<open>The rejection loop\<close>

lemma count_true_filter: "count_true m = length (filter (\<lambda>v. m ! v) [0..<length m])"
proof -
  have "filter (\<lambda>b. b) (map ((!) m) [0..<length m]) = map ((!) m) (filter (\<lambda>v. m ! v) [0..<length m])"
    by (simp add: filter_map comp_def)
  then show ?thesis
    by (simp add: count_true_def map_nth)
qed

lemma summed_log_values_finite:
  assumes "\<forall>v<length m. m ! v \<longrightarrow> S ! v \<noteq> NonFin"
  shows "length (summed_log_values S m) = count_true m"
proof -
  have "\<forall>v\<in>set vs. v < length m \<Longrightarrow>
        length (concat (map (\<lambda>v. if m ! v then (case S ! v of Fin a \<Rightarrow> [a] | NonFin \<Rightarrow> []) else []) vs))
        = length (filter (\<lambda>v. m ! v) vs)" for vs
  proof (induction vs)
    case Nil
    then show ?case by simp
  next
    case (Cons v vs)
    then show ?case using assms by (cases "S ! v") auto
  qed
  then show ?thesis
    by (simp add: summed_log_values_def count_true_filter)
qed

lemma fold_reject_voxel:
  "k \<le> length m \<Longrightarrow>
   fold (reject_voxel S lo up) [0..<k] (m, n) =
     (map (\<lambda>v. if v < k then m ! v \<and> \<not> outside lo up (S ! v) else m ! v) [0..<length m],
      n - length (filter (\<lambda>v. m ! v \<and> outside lo up (S ! v)) [0..<k]))"
proof (induction k)
  case 0
  then show ?case by (simp add: map_nth)
next
  case (Suc k)
  let ?mk = "map (\<lambda>v. if v < k then m ! v \<and> \<not> outside lo up (S ! v) else m ! v) [0..<length m]"
  have k: "k < length m" using Suc.prems by simp
  have mk: "?mk ! k = m ! k" using k by simp
  have upd: "?mk[k := False] = map (\<lambda>v. if v < Suc k then m ! v \<and> \<not> outside lo up (S ! v) else m ! v) [0..<length m]"
    if "m ! k" "outside lo up (S ! k)"
    using that k by (intro nth_equalityI) (auto simp: nth_list_update less_Suc_eq)
  have same: "?mk = map (\<lambda>v. if v < Suc k then m ! v \<and> \<not> outside lo up (S ! v) else m ! v) [0..<length m]"
    if "\<not> (m ! k \<and> outside lo up (S ! k))"
    using that k by (intro nth_equalityI) (auto simp: less_Suc_eq)
  let ?cnt = "\<lambda>k. length (filter (\<lambda>v. m ! v \<and> outside lo up (S ! v)) [0..<k])"
  have step: "fold (reject_voxel S lo up) [0..<Suc k] (m, n) = reject_voxel S lo up k (?mk, n - ?cnt k)"
    using Suc.IH k by simp
  let ?mk' = "map (\<lambda>v. if v < Suc k then m ! v \<and> \<not> outside lo up (S ! v) else m ! v) [0..<length m]"
  show ?case
  proof (cases "m ! k \<and> outside lo up (S ! k)")
    case True
    have r: "reject_voxel S lo up k (?mk, n - ?cnt k) = (?mk[k := False], n - ?cnt k - 1)"
      using True mk by (simp add: reject_voxel_def)
    have e1: "?mk[k := False] = ?mk'" using upd True by blast
    have e2: "n - ?cnt k - 1 = n - ?cnt (Suc k)" using True by simp
    have t: "(?mk[k := False], n - ?cnt k - 1) = (?mk', n - ?cnt (Suc k))"
      using e1 e2 by (rule arg_cong2 [where f = Pair])
    show ?thesis by (rule trans [OF step trans [OF r t]])
  next
    case False
    have r: "reject_voxel S lo up k (?mk, n - ?cnt k) = (?mk, n - ?cnt k)"
      using False mk by (auto simp add: reject_voxel_def)
    have e1: "?mk = ?mk'" using same False by blast
    have e2: "n - ?cnt k = n - ?cnt (Suc k)" using False by auto
    have t: "(?mk, n - ?cnt k) = (?mk', n - ?cnt (Suc k))"
      using e1 e2 by (rule arg_cong2 [where f = Pair])
    show ?thesis by (rule trans [OF step trans [OF r t]])
  qed
qed

lemma length_filter_upt_card: "length (filter P [0..<n]) = card {v. v < n \<and> P v}"
proof -
  have "set (filter P [0..<n]) = {v. v < n \<and> P v}" by auto
  moreover have "distinct (filter P [0..<n])" by simp
  ultimately show ?thesis by (metis distinct_card)
qed

lemma count_true_split:
  "count_true m = length (filter (\<lambda>v. m ! v \<and> \<not> Q v) [0..<length m])
                + length (filter (\<lambda>v. m ! v \<and> Q v) [0..<length m])"
proof -
  let ?xs = "filter (\<lambda>v. m ! v) [0..<length m]"
  have "length ?xs = length (filter (\<lambda>v. \<not> Q v) ?xs) + length (filter Q ?xs)"
    using sum_length_filter_compl [of "\<lambda>v. \<not> Q v" ?xs] by simp
  then show ?thesis
    by (simp add: count_true_filter conj_commute)
qed

lemma outlier_rejection_masked:
  fixes summed_log :: "sample list" and m :: "bool list"
  defines "n \<equiv> length (summed_log_values summed_log m)"
  defines "lower_quartile \<equiv> sort (summed_log_values summed_log m) ! lower_index n"
  defines "upper_quartile \<equiv> sort (summed_log_values summed_log m) ! upper_index n"
  defines "lo \<equiv> lower_quartile - 1.6 * (upper_quartile - lower_quartile)"
  defines "up \<equiv> upper_quartile + 1.6 * (upper_quartile - lower_quartile)"
  assumes finite_in_mask: "\<forall>v<length m. m ! v \<longrightarrow> summed_log ! v \<noteq> NonFin"
    and at_least_three: "3 \<le> count_true m"
  shows "\<exists>m' n'. outlier_rejection summed_log m = Inr (m', n')
           \<and> length m' = length m
           \<and> (\<forall>v<length m. m' ! v = (m ! v \<and> \<not> outside lo up (summed_log ! v)))
           \<and> n' = count_true m - card {v. v < length m \<and> m ! v \<and> outside lo up (summed_log ! v)}
           \<and> n' = count_true m'
           \<and> n = count_true m"
proof -
  have n: "n = count_true m"
    unfolding n_def using finite_in_mask by (rule summed_log_values_finite)
  have idx: "lower_index n < n" "upper_index n < n"
    using at_least_three n unfolding lower_index_eq upper_index_eq by presburger+
  let ?m' = "map (\<lambda>v. m ! v \<and> \<not> outside lo up (summed_log ! v)) [0..<length m]"
  let ?k = "length (filter (\<lambda>v. m ! v \<and> outside lo up (summed_log ! v)) [0..<length m])"
  have "fold (reject_voxel summed_log lo up) [0..<length m] (m, n) = (?m', n - ?k)"
    using fold_reject_voxel [of "length m" m summed_log lo up n]
    by (simp cong: map_cong)
  then have res: "outlier_rejection summed_log m = Inr (?m', n - ?k)"
    using idx
    by (simp add: outlier_rejection_def Let_def n_def lo_def up_def lower_quartile_def
        upper_quartile_def upper_outlier_threshold_def lower_outlier_threshold_def)
  have cnt': "count_true ?m' = length (filter (\<lambda>v. m ! v \<and> \<not> outside lo up (summed_log ! v)) [0..<length m])"
  proof -
    have "filter ((!) ?m') [0..<length m]
          = filter (\<lambda>v. m ! v \<and> \<not> outside lo up (summed_log ! v)) [0..<length m]"
      by (rule filter_cong) auto
    then show ?thesis by (simp add: count_true_filter)
  qed
  have "count_true m = count_true ?m' + ?k"
    using count_true_split [of m "\<lambda>v. outside lo up (summed_log ! v)"] cnt' by simp
  then have "n - ?k = count_true ?m'" using n by simp
  then show ?thesis
    using res n by (simp add: length_filter_upt_card)
qed

subsection \<open>The check of the solved factors\<close>

lemma log_sum_loop_Inr:
  "log_sum_loop cs j s = Inr r \<Longrightarrow> (\<forall>c\<in>set cs. 0 < c) \<and> r = s + sum_list (map ln cs)"
proof (induction cs arbitrary: j s)
  case Nil
  then show ?case by simp
next
  case (Cons c cs)
  from Cons.prems have c: "0 < c" and rest: "log_sum_loop cs (Suc j) (s + ln c) = Inr r"
    by (auto split: if_splits)
  from Cons.IH [OF rest] c show ?case by simp
qed

lemma log_sum_loop_Inl:
  "log_sum_loop cs j s = Inl e \<Longrightarrow>
   \<exists>i<length cs. e = NonPositiveScaleFactor (j + i) (cs ! i) \<and> cs ! i \<le> 0 \<and> (\<forall>k<i. 0 < cs ! k)"
proof (induction cs arbitrary: j s)
  case Nil
  then show ?case by simp
next
  case (Cons c cs)
  show ?case
  proof (cases "c \<le> 0")
    case True
    with Cons.prems show ?thesis by (intro exI [of _ 0]) simp
  next
    case False
    with Cons.prems have "log_sum_loop cs (Suc j) (s + ln c) = Inl e" by simp
    from Cons.IH [OF this] obtain i where i: "i < length cs"
      "e = NonPositiveScaleFactor (Suc j + i) (cs ! i)" "cs ! i \<le> 0" "\<forall>k<i. 0 < cs ! k"
      by blast
    have "\<forall>k<Suc i. 0 < (c # cs) ! k"
      using i(4) False by (auto simp: nth_Cons split: nat.splits)
    with i show ?thesis by (intro exI [of _ "Suc i"]) simp
  qed
qed

lemma renormalise_Inr:
  "renormalise n sf = Inr sf' \<Longrightarrow>
   (\<forall>c\<in>set sf. 0 < c) \<and> sf' = map (\<lambda>c. c / exp (sum_list (map ln sf) / real n)) sf"
  by (auto simp: renormalise_def split: sum.splits dest: log_sum_loop_Inr)

lemma renormalise_Inl:
  "renormalise n sf = Inl e \<Longrightarrow>
   \<exists>i<length sf. e = NonPositiveScaleFactor i (sf ! i) \<and> sf ! i \<le> 0 \<and> (\<forall>k<i. 0 < sf ! k)"
  by (auto simp: renormalise_def split: sum.splits dest: log_sum_loop_Inl)

lemma renormalise_positive:
  assumes "\<forall>c\<in>set sf. 0 < c"
  shows "renormalise n sf = Inr (map (\<lambda>c. c / exp (sum_list (map ln sf) / real n)) sf)"
proof (cases "renormalise n sf")
  case (Inl e)
  from renormalise_Inl [OF this] assms show ?thesis by (auto simp: not_less [symmetric])
next
  case (Inr sf')
  from renormalise_Inr [OF this] Inr show ?thesis by simp
qed

lemma fold_add_ln: "fold (\<lambda>c mean. mean + f c) cs (a::real) = a + sum_list (map f cs)"
  by (induction cs arbitrary: a) (simp_all add: add.assoc)

lemma sum_list_ln_div:
  assumes "\<forall>c\<in>set cs. 0 < c" and "0 < g"
  shows "sum_list (map ln (map (\<lambda>c. c / g) cs)) = sum_list (map ln cs) - real (length cs) * ln g"
  using assms by (induction cs) (simp_all add: ln_div algebra_simps)

lemma norm_iteration_Inr:
  assumes "norm_iteration E P iter k st = Inr (c, st')"
  shows "renormalise (n_tissue_types P) (solve_scale_factors E P st) = Inr (scale_factors st')
       \<and> previous_scale_factors st' = scale_factors st'
       \<and> c = fst (convergence_test iter (previous_scale_factors st) (scale_factors st'))
       \<and> info st' = info st @ [NormIteration k]
            @ snd (convergence_test iter (previous_scale_factors st) (scale_factors st'))"
  using assms
  by (auto simp: norm_iteration_def Let_def split: sum.splits prod.splits if_splits)



subsection \<open>The working mask\<close>

lemma length_summed_log_tissue [simp]:
  "length (summed_log_tissue rest c tissue bias S) = length S"
  by (simp add: summed_log_tissue_def Let_def)

lemma length_compute_summed_log [simp]:
  "length (compute_summed_log rest sf tissues bias) = length bias"
proof -
  have "length (fold (\<lambda>j S. summed_log_tissue rest (sf ! j) (tissues ! j) bias S) js S0) = length S0"
    for js S0
    by (induction js arbitrary: S0) simp_all
  then show ?thesis by (simp add: compute_summed_log_def)
qed

text \<open>Away from the resting position of the loop, the volume holds the plain sum.\<close>

lemma nth_summed_log_tissue:
  assumes "v < length S" and "v \<noteq> rest"
  shows "summed_log_tissue rest c tissue bias S ! v = sadd (S ! v) (c * (tissue ! v) / (bias ! v))"
  using assms by (simp add: summed_log_tissue_def Let_def)

lemma fold_summed_log_tissue_nth:
  assumes "v < length S" and "v \<noteq> rest" and "S ! v = Fin a"
  shows "fold (\<lambda>j S. summed_log_tissue rest (sf ! j) (tissues ! j) bias S) js S ! v
         = Fin (a + sum_list (map (\<lambda>j. sf ! j * (tissues ! j ! v) / (bias ! v)) js))"
  using assms
proof (induction js arbitrary: S a)
  case Nil
  then show ?case by simp
next
  case (Cons j js)
  let ?S = "summed_log_tissue rest (sf ! j) (tissues ! j) bias S"
  have "?S ! v = Fin (a + sf ! j * (tissues ! j ! v) / (bias ! v))"
    using Cons.prems by (simp add: nth_summed_log_tissue)
  moreover have "v < length ?S" using Cons.prems by simp
  ultimately show ?case
    using Cons.IH [of ?S "a + sf ! j * (tissues ! j ! v) / (bias ! v)"] Cons.prems(2)
    by (simp add: add.assoc)
qed

lemma compute_summed_log_away_from_rest:
  assumes "v < length bias" and "v \<noteq> rest"
  shows "compute_summed_log rest sf tissues bias ! v
         = Fin (sum_list (map (\<lambda>j. sf ! j * (tissues ! j ! v) / (bias ! v)) [0..<length tissues]))"
  using fold_summed_log_tissue_nth [of v "replicate (length bias) (Fin 0)" rest 0 sf tissues bias
      "[0..<length tissues]"] assms
  by (simp add: compute_summed_log_def)

lemma length_refine_mask [simp]: "length (refine_mask S M) = length S"
  by (simp add: refine_mask_def)

lemma nth_refine_mask:
  "v < length S \<Longrightarrow> refine_mask S M ! v = (positive_finite (S ! v) \<and> M ! v)"
  by (simp add: refine_mask_def)

lemma refine_mask_finite:
  "\<forall>v<length (refine_mask S M). refine_mask S M ! v \<longrightarrow> S ! v \<noteq> NonFin"
  by (auto simp: nth_refine_mask)

lemma count_true_mono:
  assumes "length a = length b" and "\<forall>v<length a. a ! v \<longrightarrow> b ! v"
  shows "count_true a \<le> count_true b"
proof -
  have "length (filter (\<lambda>v. a ! v) vs) \<le> length (filter (\<lambda>v. b ! v) vs)"
    if "\<forall>v\<in>set vs. v < length a" for vs
    using that assms(2) by (induction vs) auto
  then show ?thesis using assms(1) by (simp add: count_true_filter)
qed

lemma outlier_rejection_Inr:
  assumes fin: "\<forall>v<length m. m ! v \<longrightarrow> S ! v \<noteq> NonFin"
    and res: "outlier_rejection S m = Inr (m', n')"
  shows "3 \<le> count_true m \<and> length m' = length m \<and> (\<forall>v<length m. m' ! v \<longrightarrow> m ! v)
       \<and> n' = count_true m'"
proof -
  let ?n = "length (summed_log_values S m)"
  have n: "?n = count_true m" using fin by (rule summed_log_values_finite)
  have "upper_index ?n < ?n"
    using res by (auto simp: outlier_rejection_def Let_def split: if_splits)
  then have three: "3 \<le> count_true m"
    unfolding upper_index_eq n by presburger
  from outlier_rejection_masked [OF fin three] res three show ?thesis by auto
qed

subsection \<open>The lines the loops write\<close>

lemma iteration_lines_append [simp]:
  "iteration_lines (a @ b) = iteration_lines a @ iteration_lines b"
  by (induction a rule: iteration_lines.induct) simp_all

lemma norm_iteration_lines_append [simp]:
  "norm_iteration_lines (a @ b) = norm_iteration_lines a @ norm_iteration_lines b"
  by (induction a rule: norm_iteration_lines.induct) simp_all

lemma convergence_test_lines [simp]:
  "iteration_lines (snd (convergence_test iter p c)) = []"
  "norm_iteration_lines (snd (convergence_test iter p c)) = []"
  by (simp_all add: convergence_test_def)

lemma norm_loop_info:
  "norm_loop E P iter k c st = Inr st' \<Longrightarrow>
   \<exists>evs. info st' = info st @ evs \<and> iteration_lines evs = []
     \<and> (\<exists>k'. k \<le> k' \<and> k' \<le> max k (max_iter P) \<and> norm_iteration_lines evs = [k..<k'])
     \<and> (iter = 1 \<and> \<not> c \<longrightarrow> norm_iteration_lines evs = [k..<max_iter P])"
proof (induction E P iter k c st rule: norm_loop.induct)
  case (1 E P iter k c st)
  show ?case
  proof (cases "\<not> c \<and> k < max_iter P")
    case False
    with "1.prems" have "st' = st" by (subst (asm) norm_loop.simps) auto
    moreover have "iter = 1 \<and> \<not> c \<longrightarrow> [k..<max_iter P] = []" using False by auto
    ultimately show ?thesis by (intro exI [of _ "[]"]) auto
  next
    case True
    have unfold: "norm_loop E P iter k c st =
        (case norm_iteration E P iter k st of
           Inl e \<Rightarrow> Inl e
         | Inr (c1, st1) \<Rightarrow> norm_loop E P iter (k + 1) c1 st1)"
      using True by (subst norm_loop.simps) simp
    from "1.prems" obtain c1 st1 where
      it: "norm_iteration E P iter k st = Inr (c1, st1)"
      and loop: "norm_loop E P iter (k + 1) c1 st1 = Inr st'"
      unfolding unfold by (cases "norm_iteration E P iter k st") auto
    from norm_iteration_Inr [OF it]
    have c1: "c1 = fst (convergence_test iter (previous_scale_factors st) (scale_factors st1))"
      and info1: "info st1 = info st @ [NormIteration k]
            @ snd (convergence_test iter (previous_scale_factors st) (scale_factors st1))"
      by blast+
    from "1.IH" [OF True it refl loop] obtain evs k' where
      evs: "info st' = info st1 @ evs" "iteration_lines evs = []"
        "k + 1 \<le> k'" "k' \<le> max (k + 1) (max_iter P)" "norm_iteration_lines evs = [k + 1..<k']"
        "iter = 1 \<and> \<not> c1 \<longrightarrow> norm_iteration_lines evs = [k + 1..<max_iter P]"
      by blast
    let ?evs = "[NormIteration k]
            @ snd (convergence_test iter (previous_scale_factors st) (scale_factors st1)) @ evs"
    have a: "info st' = info st @ ?evs" using evs(1) info1 by simp
    have b: "iteration_lines ?evs = []" using evs(2) by simp
    have c: "norm_iteration_lines ?evs = [k..<k']"
      using evs(3,5) by (simp add: upt_conv_Cons)
    have d: "k \<le> k' \<and> k' \<le> max k (max_iter P)" using evs(3,4) True by auto
    have e: "iter = 1 \<and> \<not> c \<longrightarrow> norm_iteration_lines ?evs = [k..<max_iter P]"
    proof
      assume "iter = 1 \<and> \<not> c"
      then have "\<not> c1" using c1 by (simp add: convergence_test_def)
      with evs(6) \<open>iter = 1 \<and> \<not> c\<close> have "norm_iteration_lines evs = [k + 1..<max_iter P]" by simp
      then show "norm_iteration_lines ?evs = [k..<max_iter P]"
        using True by (simp add: upt_conv_Cons)
    qed
    show ?thesis
    proof (intro exI [of _ ?evs] conjI)
      show "info st' = info st @ ?evs" by (rule a)
      show "iteration_lines ?evs = []" by (rule b)
      show "\<exists>k'. k \<le> k' \<and> k' \<le> max k (max_iter P) \<and> norm_iteration_lines ?evs = [k..<k']"
        using c d by (intro exI [of _ k']) simp
      show "iter = 1 \<and> \<not> c \<longrightarrow> norm_iteration_lines ?evs = [k..<max_iter P]" by (rule e)
    qed
  qed
qed

lemma info_bias_field_fit [simp]: "info (bias_field_fit E P st) = info st"
  by (simp add: bias_field_fit_def Let_def)

lemma outer_loop_info:
  "outer_loop E P iter st = Inr st' \<Longrightarrow>
   \<exists>evs. info st' = info st @ evs \<and> iteration_lines evs = [iter..<max_iter P]"
proof (induction E P iter st rule: outer_loop.induct)
  case (1 E P iter st)
  show ?case
  proof (cases "iter < max_iter P")
    case False
    with "1.prems" have "st' = st" by (subst (asm) outer_loop.simps) simp
    then show ?thesis using False by (intro exI [of _ "[]"]) simp
  next
    case True
    let ?st0 = "st\<lparr>info := info st @ [Iteration iter]\<rparr>"
    have unfold: "outer_loop E P iter st =
        (case norm_loop E P iter 1 False ?st0 of
           Inl e \<Rightarrow> Inl e
         | Inr st1 \<Rightarrow> outer_loop E P (iter + 1)
             (bias_field_fit E P (st1\<lparr>info := info st1 @ [ScaleFactors (scale_factors st1)]\<rparr>)))"
      using True by (subst outer_loop.simps) simp
    from "1.prems" obtain st1 where
      inner: "norm_loop E P iter 1 False ?st0 = Inr st1"
      and rest: "outer_loop E P (iter + 1)
                   (bias_field_fit E P (st1\<lparr>info := info st1 @ [ScaleFactors (scale_factors st1)]\<rparr>))
                 = Inr st'"
      unfolding unfold by (cases "norm_loop E P iter 1 False ?st0") simp_all
    from norm_loop_info [OF inner] obtain evs1 where
      evs1: "info st1 = info st @ [Iteration iter] @ evs1" "iteration_lines evs1 = []"
      by auto
    from "1.IH" [OF True inner rest] obtain evs2 where
      evs2: "info st' = info st1 @ [ScaleFactors (scale_factors st1)] @ evs2"
        "iteration_lines evs2 = [iter + 1..<max_iter P]"
      by auto
    let ?evs = "[Iteration iter] @ evs1 @ [ScaleFactors (scale_factors st1)] @ evs2"
    have "info st' = info st @ ?evs" using evs1(1) evs2(1) by simp
    moreover have "iteration_lines ?evs = [iter..<max_iter P]"
      using evs1(2) evs2(2) True by (simp add: upt_conv_Cons)
    ultimately show ?thesis by (intro exI [of _ ?evs] conjI)
  qed
qed

subsection \<open>The command\<close>

lemma upt2: "[0..<2] = [0, 1]"
  by (simp add: upt_rec)

lemma upt8: "[0..<8] = [0, 1, 2, 3, 4, 5, 6, 7]"
  by (simp add: upt_rec)



subsection \<open>The example, step by step\<close>

lemma ex_mask_length: "length ex_mask_0 = 8" "length ex_mask_1 = 8"
  by (simp_all add: ex_mask_0_def ex_mask_1_def)

lemma ex_design_0:
  "design_matrix [ex_tissue_0, ex_tissue_1] (replicate 8 1) ex_mask_0
   = [[14, 0], [12, 30], [6, 20], [0, 10], [6, 10], [10, 10], [0, 10]]"
  by (simp add: design_matrix_def ex_mask_0_def ex_tissue_0_def ex_tissue_1_def upt8 upt2)

lemma ex_design_1:
  "design_matrix [ex_tissue_0, ex_tissue_1] (replicate 8 1) ex_mask_1
   = [[14, 0], [6, 20], [0, 10], [6, 10], [10, 10], [0, 10]]"
  by (simp add: design_matrix_def ex_mask_1_def ex_tissue_0_def ex_tissue_1_def upt8 upt2)

lemma ex_least_squares_0:
  "least_squares_2 [[14, 0], [12, 30], [6, 20], [0, 10], [6, 10], [10, 10], [0, 10]]
   = [5 / 96, 1 / 30]"
  by (simp add: least_squares_2_def)

lemma ex_least_squares_1:
  "least_squares_2 [[14, 0], [6, 20], [0, 10], [6, 10], [10, 10], [0, 10]] = [1 / 18, 1 / 18]"
  by (simp add: least_squares_2_def)

lemma ex_normal_equations_0:
  "normal_equations [[14, 0], [12, 30], [6, 20], [0, 10], [6, 10], [10, 10], [0, 10]]
     [5 / 96, 1 / 30]"
  by (simp add: normal_equations_def dot_def upt2)

lemma ex_normal_equations_1:
  "normal_equations [[14, 0], [6, 20], [0, 10], [6, 10], [10, 10], [0, 10]] [1 / 18, 1 / 18]"
  by (simp add: normal_equations_def dot_def upt2)

lemma exp_half_ln:
  fixes a b g :: real
  assumes "0 < a" "0 < b" "0 < g" "a * b = g * g"
  shows "exp ((ln a + ln b) / 2) = g"
proof -
  have "ln a + ln b = ln (a * b)" using assms(1,2) by (simp add: ln_mult)
  also have "\<dots> = ln (g * g)" using assms(4) by simp
  also have "\<dots> = 2 * ln g" using assms(3) by (simp add: ln_mult)
  finally show ?thesis using assms(3) by simp
qed

lemma ex_renormalise_0: "renormalise 2 [5 / 96, 1 / 30] = Inr [5 / 4, 4 / 5]"
proof -
  have g: "exp ((ln (5 / 96) + ln (1 / 30)) / 2) = (1 / 24 :: real)"
    by (rule exp_half_ln) simp_all
  show ?thesis by (simp add: renormalise_def g)
qed

lemma ex_renormalise_1: "renormalise 2 [1 / 18, 1 / 18] = Inr [1, 1]"
proof -
  have g: "exp ((ln (1 / 18) + ln (1 / 18)) / 2) = (1 / 18 :: real)"
    by (rule exp_half_ln) simp_all
  show ?thesis by (simp add: renormalise_def g)
qed

lemma ex_compute_summed_log_0:
  "compute_summed_log 0 [5 / 4, 4 / 5] [ex_tissue_0, ex_tissue_1] (replicate 8 1) = ex_summed_log_0"
  by (simp add: compute_summed_log_def summed_log_tissue_def ex_tissue_0_def ex_tissue_1_def
      ex_summed_log_0_def upt8 upt2 Let_def)

lemma ex_compute_summed_log_1:
  "compute_summed_log 0 [1, 1] [ex_tissue_0, ex_tissue_1] (replicate 8 1) = ex_summed_log_1"
  by (simp add: compute_summed_log_def summed_log_tissue_def ex_tissue_0_def ex_tissue_1_def
      ex_summed_log_1_def upt8 upt2 Let_def)

lemma ex_refine_0: "refine_mask ex_summed_log_0 ex_mask_0 = ex_mask_0"
  by (simp add: refine_mask_def ex_mask_0_def ex_summed_log_0_def upt8)

lemma ex_refine_1: "refine_mask ex_summed_log_1 ex_mask_0 = ex_mask_0"
  by (simp add: refine_mask_def ex_mask_0_def ex_summed_log_1_def upt8)

lemma ex_outlier_rejection_0: "outlier_rejection ex_summed_log_0 ex_mask_0 = Inr (ex_mask_1, 6)"
  by (simp add: outlier_rejection_def summed_log_values_def ex_mask_0_def ex_mask_1_def
      ex_summed_log_0_def upt8 Let_def lower_index_eq upper_index_eq reject_voxel_def
      upper_outlier_threshold_def lower_outlier_threshold_def)

lemma ex_outlier_rejection_1: "outlier_rejection ex_summed_log_1 ex_mask_0 = Inr (ex_mask_0, 7)"
  by (simp add: outlier_rejection_def summed_log_values_def ex_mask_0_def
      ex_summed_log_1_def upt8 Let_def lower_index_eq upper_index_eq reject_voxel_def
      upper_outlier_threshold_def lower_outlier_threshold_def)

lemma ex_solve_0: "solve_scale_factors ex_env (ex_problem n) ex_state_0 = [5 / 96, 1 / 30]"
  by (simp add: solve_scale_factors_def ex_env_def ex_problem_def ex_state_0_def initial_state_def
      ex_mask_length ex_design_0 ex_least_squares_0)

lemma ex_solve_1: "solve_scale_factors ex_env (ex_problem n) ex_state_1 = [1 / 18, 1 / 18]"
  by (simp add: solve_scale_factors_def ex_env_def ex_problem_def ex_state_1_def ex_state_0_def
      initial_state_def ex_mask_length ex_design_1 ex_least_squares_1)

lemma ex_norm_iteration_0:
  "norm_iteration ex_env (ex_problem n) 1 1 ex_state_0 = Inr (False, ex_state_1)"
proof -
  have "bias_field_image ex_state_0 = replicate 8 1" "loop_rest ex_env = 0"
    "combined_tissue (ex_problem n) = [ex_tissue_0, ex_tissue_1]"
    "initial_mask (ex_problem n) = ex_mask_0" "n_tissue_types (ex_problem n) = 2"
    by (simp_all add: ex_state_0_def initial_state_def ex_env_def ex_problem_def ex_mask_length)
  then show ?thesis
    by (simp add: norm_iteration_def ex_solve_0 ex_renormalise_0 convergence_test_def
        ex_compute_summed_log_0 ex_refine_0 ex_outlier_rejection_0)
       (simp add: ex_state_1_def ex_state_0_def)
qed

lemma ex_norm_iteration_1:
  "norm_iteration ex_env (ex_problem n) 1 2 ex_state_1 = Inr (False, ex_state_2)"
proof -
  have "bias_field_image ex_state_1 = replicate 8 1" "loop_rest ex_env = 0"
    "combined_tissue (ex_problem n) = [ex_tissue_0, ex_tissue_1]"
    "initial_mask (ex_problem n) = ex_mask_0" "n_tissue_types (ex_problem n) = 2"
    by (simp_all add: ex_state_1_def ex_state_0_def initial_state_def ex_env_def ex_problem_def
        ex_mask_length)
  then show ?thesis
    by (simp add: norm_iteration_def ex_solve_1 ex_renormalise_1 convergence_test_def
        ex_compute_summed_log_1 ex_refine_1 ex_outlier_rejection_1)
       (simp add: ex_state_2_def ex_state_1_def ex_state_0_def)
qed

lemma norm_loop_step:
  assumes "\<not> c" and "k < max_iter P" and "norm_iteration E P iter k st = Inr (c', st')"
  shows "norm_loop E P iter k c st = norm_loop E P iter (k + 1) c' st'"
  using assms by (subst norm_loop.simps) simp

lemma norm_loop_stop:
  assumes "c \<or> \<not> k < max_iter P"
  shows "norm_loop E P iter k c st = Inr st"
  using assms by (subst norm_loop.simps) auto

lemma outer_loop_step:
  assumes "iter < max_iter P"
    and "norm_loop E P iter 1 False (st\<lparr>info := info st @ [Iteration iter]\<rparr>) = Inr st'"
  shows "outer_loop E P iter st
         = outer_loop E P (iter + 1)
             (bias_field_fit E P (st'\<lparr>info := info st' @ [ScaleFactors (scale_factors st')]\<rparr>))"
  using assms by (subst outer_loop.simps) simp

lemma outer_loop_stop:
  assumes "\<not> iter < max_iter P"
  shows "outer_loop E P iter st = Inr st"
  using assms by (subst outer_loop.simps) simp

lemma ex_norm_loop_3: "norm_loop ex_env (ex_problem 3) 1 1 False ex_state_0 = Inr ex_state_2"
proof -
  have m: "max_iter (ex_problem 3) = 3" by (simp add: ex_problem_def)
  have "norm_loop ex_env (ex_problem 3) 1 1 False ex_state_0
        = norm_loop ex_env (ex_problem 3) 1 (1 + 1) False ex_state_1"
    by (rule norm_loop_step [OF _ _ ex_norm_iteration_0]) (simp_all add: m)
  also have "\<dots> = norm_loop ex_env (ex_problem 3) 1 2 False ex_state_1"
    by (simp only: one_add_one)
  also have "\<dots> = norm_loop ex_env (ex_problem 3) 1 (2 + 1) False ex_state_2"
    by (rule norm_loop_step [OF _ _ ex_norm_iteration_1]) (simp_all add: m)
  also have "\<dots> = Inr ex_state_2"
    by (rule norm_loop_stop) (simp add: m)
  finally show ?thesis .
qed

lemma ex_norm_loop_2: "norm_loop ex_env (ex_problem 2) 1 1 False ex_state_0 = Inr ex_state_1"
proof -
  have m: "max_iter (ex_problem 2) = 2" by (simp add: ex_problem_def)
  have "norm_loop ex_env (ex_problem 2) 1 1 False ex_state_0
        = norm_loop ex_env (ex_problem 2) 1 (1 + 1) False ex_state_1"
    by (rule norm_loop_step [OF _ _ ex_norm_iteration_0]) (simp_all add: m)
  also have "\<dots> = Inr ex_state_1"
    by (rule norm_loop_stop) (simp add: m)
  finally show ?thesis .
qed

lemma ex_outer_loop_2:
  "outer_loop ex_env (ex_problem 2) 1 (initial_state [0, 0] [0, 0] ex_mask_0) = Inr ex_state_fit"
proof -
  have m: "max_iter (ex_problem 2) = 2" by (simp add: ex_problem_def)
  have s: "(initial_state [0, 0] [0, 0] ex_mask_0)
             \<lparr>info := info (initial_state [0, 0] [0, 0] ex_mask_0) @ [Iteration 1]\<rparr> = ex_state_0"
    by (simp add: ex_state_0_def initial_state_def)
  have "outer_loop ex_env (ex_problem 2) 1 (initial_state [0, 0] [0, 0] ex_mask_0)
        = outer_loop ex_env (ex_problem 2) (1 + 1) ex_state_fit"
    unfolding ex_state_fit_def
  proof (rule outer_loop_step)
    show "1 < max_iter (ex_problem 2)" by (simp add: m)
    show "norm_loop ex_env (ex_problem 2) 1 1 False
            ((initial_state [0, 0] [0, 0] ex_mask_0)
               \<lparr>info := info (initial_state [0, 0] [0, 0] ex_mask_0) @ [Iteration 1]\<rparr>)
          = Inr ex_state_1"
      unfolding s by (rule ex_norm_loop_2)
  qed
  also have "\<dots> = Inr ex_state_fit"
    by (rule outer_loop_stop) (simp add: m)
  finally show ?thesis .
qed



lemma ex_finite_in_mask:
  "\<forall>v<length ex_mask_0. ex_mask_0 ! v \<longrightarrow> ex_summed_log_0 ! v \<noteq> NonFin"
  by (simp add: ex_mask_0_def ex_summed_log_0_def nth_Cons' less_Suc_eq numeral_eq_Suc)

lemma ex_count_true: "count_true ex_mask_0 = 7" "count_true ex_mask_1 = 6"
  by (simp_all add: count_true_def ex_mask_0_def ex_mask_1_def)

section \<open>The claims\<close>

text \<open>
  C1, the log-domain summed volume. The claim is that every voxel of the recomputed
  volume holds the logarithm of the scaled, bias-divided tissue sum. The logarithm is
  taken once after each tissue's voxel loop, at the one sample where the loop has left
  the volume, and not at every voxel. In the first pass of the example the third voxel
  holds the sum 39 and not its logarithm. With two voxels, two tissues that are one
  everywhere, factors one and bias one, the sum is two at both voxels: whatever the
  resting position of the loop, the volume computed is not the volume of the logarithms.
\<close>

theorem summed_log_only_at_rest:
  "compute_summed_log (loop_rest ex_env) (scale_factors ex_state_1)
       (combined_tissue (ex_problem 3)) (bias_field_image ex_state_0)
     = [NonFin, Fin (35 / 2), Fin 39, Fin (47 / 2), Fin 8, Fin (31 / 2), Fin (41 / 2), Fin 8]
   \<and> Fin 39 \<noteq> Fin (ln (5 / 4 * 12 / 1 + 4 / 5 * 30 / 1))
   \<and> compute_summed_log rest [1, 1] [[1, 1], [1, 1]] [1, 1]
     = (if rest = 0 then [Fin 0, Fin 2] else if rest = 1 then [Fin 2, Fin 0] else [Fin 2, Fin 2])
   \<and> compute_summed_log rest [1, 1] [[1, 1], [1, 1]] [1, 1]
     \<noteq> [Fin (ln (1 * 1 / 1 + 1 * 1 / 1)), Fin (ln (1 * 1 / 1 + 1 * 1 / 1))]"
proof -
  have "ln (2::real) < 2" by (rule ln_less_self) simp
  then have "ln (2::real) \<noteq> 2" by linarith
  moreover have "ln (2::real) \<noteq> 0" by simp
  ultimately have ln2: "ln (2::real) \<noteq> 0" "ln (2::real) \<noteq> 2" by blast+
  have "ln (39::real) < 39" by (rule ln_less_self) simp
  then have "ln (39::real) \<noteq> 39" by linarith
  moreover have "5 / 4 * 12 / 1 + 4 / 5 * 30 / 1 = (39::real)" by simp
  ultimately have ln39: "Fin 39 \<noteq> Fin (ln (5 / 4 * 12 / 1 + 4 / 5 * 30 / 1))"
    by (simp only: sample.inject)
  have ex: "compute_summed_log (loop_rest ex_env) (scale_factors ex_state_1)
       (combined_tissue (ex_problem 3)) (bias_field_image ex_state_0) = ex_summed_log_0"
    using ex_compute_summed_log_0
    by (simp add: ex_env_def ex_state_1_def ex_state_0_def initial_state_def ex_problem_def
        ex_mask_length)
  have v: "compute_summed_log rest [1, 1] [[1, 1], [1, 1]] [1, 1]
     = (if rest = 0 then [Fin 0, Fin 2] else if rest = 1 then [Fin 2, Fin 0] else [Fin 2, Fin 2])"
  proof -
    consider "rest = 0" | "rest = 1" | "2 \<le> rest" by linarith
    then show ?thesis
      by cases (simp_all add: compute_summed_log_def summed_log_tissue_def upt2 Let_def)
  qed
  show ?thesis unfolding v ex using ln2 ln39 by (auto simp: ex_summed_log_0_def)
qed

text \<open>
  C2, the working mask within the inner loop. After a pass of the inner loop that has
  not converged, the working mask has the extent of the initial mask, every voxel of it
  is a voxel of the mask that refinement has derived from the initial mask in this pass
  (outlier rejection only removes voxels), hence a voxel of the initial mask, the count
  of active voxels is the number of its true voxels, and this number is at most that of
  the initial mask.
\<close>

theorem working_mask_within_initial_mask:
  assumes step: "norm_iteration E P iter norm_iter st = Inr (False, st')"
    and grid: "length (bias_field_image st) = length (initial_mask P)"
  shows "length (mask_img st') = length (initial_mask P)
       \<and> (\<forall>v<length (initial_mask P).
             mask_img st' ! v \<longrightarrow>
             refine_mask (compute_summed_log (loop_rest E) (scale_factors st')
                            (combined_tissue P) (bias_field_image st))
               (initial_mask P) ! v)
       \<and> (\<forall>v<length (initial_mask P). mask_img st' ! v \<longrightarrow> initial_mask P ! v)
       \<and> num_voxels st' = count_true (mask_img st')
       \<and> count_true (mask_img st') \<le> count_true (initial_mask P)"
proof -
  define sf where "sf = scale_factors st'"
  have sf: "renormalise (n_tissue_types P) (solve_scale_factors E P st) = Inr sf"
    using norm_iteration_Inr [OF step] by (simp add: sf_def)
  let ?S = "compute_summed_log (loop_rest E) sf (combined_tissue P) (bias_field_image st)"
  let ?R = "refine_mask ?S (initial_mask P)"
  have rej: "outlier_rejection ?S ?R = Inr (mask_img st', num_voxels st')"
    using step sf
    by (auto simp: norm_iteration_def Let_def split: sum.splits prod.splits if_splits)
  from outlier_rejection_Inr [OF refine_mask_finite rej]
  have len: "length (mask_img st') = length ?R"
    and sub: "\<forall>v<length ?R. mask_img st' ! v \<longrightarrow> ?R ! v"
    and num: "num_voxels st' = count_true (mask_img st')"
    by blast+
  have lenR: "length ?R = length (initial_mask P)" using grid by simp
  have sub': "\<forall>v<length (initial_mask P). mask_img st' ! v \<longrightarrow> initial_mask P ! v"
    using sub lenR by (auto simp: nth_refine_mask)
  have "count_true (mask_img st') \<le> count_true (initial_mask P)"
    using len lenR sub' by (intro count_true_mono) auto
  then show ?thesis using len lenR sub sub' num unfolding sf_def by simp
qed

theorem working_mask_within_initial_mask_witness:
  "norm_iteration ex_env (ex_problem 3) 1 1 ex_state_0 = Inr (False, ex_state_1)
   \<and> length (bias_field_image ex_state_0) = length (initial_mask (ex_problem 3))
   \<and> length (mask_img ex_state_1) = length (initial_mask (ex_problem 3))
   \<and> num_voxels ex_state_1 = count_true (mask_img ex_state_1)
   \<and> count_true (mask_img ex_state_1) \<le> count_true (initial_mask (ex_problem 3))"
proof -
  have grid: "length (bias_field_image ex_state_0) = length (initial_mask (ex_problem 3))"
    by (simp add: ex_state_0_def initial_state_def ex_problem_def)
  show ?thesis
    using working_mask_within_initial_mask [OF ex_norm_iteration_0 grid] ex_norm_iteration_0 grid
    by blast
qed

text \<open>
  C2 as it is written fails on the example. The two passes of the first inner loop, with
  an iteration limit of three, leave six and then seven voxels in the working mask: the
  third voxel, which the first pass rejects, is back after the second pass, because
  every pass derives the mask again from the initial mask. The scale factors of both
  passes solve the normal equations of their systems.
\<close>

theorem working_mask_grows_counterexample:
  "norm_iteration ex_env (ex_problem 3) 1 1 ex_state_0 = Inr (False, ex_state_1)
   \<and> norm_iteration ex_env (ex_problem 3) 1 2 ex_state_1 = Inr (False, ex_state_2)
   \<and> norm_loop ex_env (ex_problem 3) 1 1 False ex_state_0 = Inr ex_state_2
   \<and> count_true (mask_img ex_state_1) = 6
   \<and> count_true (mask_img ex_state_2) = 7
   \<and> \<not> mask_img ex_state_1 ! 2
   \<and> mask_img ex_state_2 ! 2
   \<and> normal_equations
        (design_matrix (combined_tissue (ex_problem 3)) (bias_field_image ex_state_0)
           (mask_img ex_state_0))
        (solve_scale_factors ex_env (ex_problem 3) ex_state_0)
   \<and> normal_equations
        (design_matrix (combined_tissue (ex_problem 3)) (bias_field_image ex_state_1)
           (mask_img ex_state_1))
        (solve_scale_factors ex_env (ex_problem 3) ex_state_1)"
proof -
  have d0: "design_matrix (combined_tissue (ex_problem 3)) (bias_field_image ex_state_0)
              (mask_img ex_state_0)
            = [[14, 0], [12, 30], [6, 20], [0, 10], [6, 10], [10, 10], [0, 10]]"
    using ex_design_0
    by (simp add: ex_problem_def ex_state_0_def initial_state_def ex_mask_length)
  have d1: "design_matrix (combined_tissue (ex_problem 3)) (bias_field_image ex_state_1)
              (mask_img ex_state_1)
            = [[14, 0], [6, 20], [0, 10], [6, 10], [10, 10], [0, 10]]"
    using ex_design_1
    by (simp add: ex_problem_def ex_state_1_def ex_state_0_def initial_state_def ex_mask_length)
  have c: "count_true (mask_img ex_state_1) = 6" "count_true (mask_img ex_state_2) = 7"
    "\<not> mask_img ex_state_1 ! 2" "mask_img ex_state_2 ! 2"
    by (simp_all add: ex_state_1_def ex_state_2_def ex_mask_0_def ex_mask_1_def count_true_def)
  show ?thesis
    unfolding d0 d1 ex_solve_0 ex_solve_1
    using ex_norm_iteration_0 ex_norm_iteration_1 ex_norm_loop_3 c
      ex_normal_equations_0 ex_normal_equations_1
    by (intro conjI)
qed

text \<open>
  C3, the quartile indices. With \<open>n\<close> values collected, the upper index
  \<open>round (n * 0.75)\<close> is at least \<open>n\<close> when \<open>n \<le> 2\<close>, and both indices are below
  \<open>n\<close> when \<open>n \<ge> 3\<close>; with at most two values collected, outlier rejection reads the
  sorted values out of range.
\<close>

theorem quartile_index_bounds:
  "(n \<le> 2 \<longrightarrow> n \<le> upper_index n)
   \<and> (3 \<le> n \<longrightarrow> lower_index n < n \<and> upper_index n < n)
   \<and> (length (summed_log_values summed_log m) \<le> 2 \<longrightarrow>
        (\<exists>i. outlier_rejection summed_log m
               = Inl (IndexOutOfRange i (length (summed_log_values summed_log m)))
             \<and> length (summed_log_values summed_log m) \<le> i))"
proof (intro conjI impI)
  assume "n \<le> 2" then show "n \<le> upper_index n"
    unfolding upper_index_eq by presburger
next
  assume "3 \<le> n" then show "lower_index n < n" "upper_index n < n"
    unfolding lower_index_eq upper_index_eq by presburger+
next
  let ?n = "length (summed_log_values summed_log m)"
  assume "?n \<le> 2"
  then have "?n \<le> upper_index ?n" unfolding upper_index_eq by presburger
  then show "\<exists>i. outlier_rejection summed_log m = Inl (IndexOutOfRange i ?n) \<and> ?n \<le> i"
    by (auto simp: outlier_rejection_def Let_def)
qed

theorem quartile_index_bounds_witness:
  "(2::nat) \<le> upper_index 2 \<and> lower_index 3 < 3 \<and> upper_index 3 < 3
   \<and> length (summed_log_values [NonFin, Fin 1] [False, True]) \<le> 2
   \<and> (\<exists>i. outlier_rejection [NonFin, Fin 1] [False, True] = Inl (IndexOutOfRange i 1) \<and> 1 \<le> i)"
proof -
  have l: "length (summed_log_values [NonFin, Fin 1] [False, True]) = 1"
    by (simp add: summed_log_values_def upt2)
  show ?thesis
    using quartile_index_bounds [of 2 "[NonFin, Fin 1]" "[False, True]"]
      quartile_index_bounds [of 3 "[NonFin, Fin 1]" "[False, True]"] l
    by simp
qed





text \<open>
  C6, re-normalisation. For strictly positive factors, one for every tissue, the
  re-normalised vector is the vector divided by the exponential of the mean logarithm,
  and the exponential of its own mean logarithm is one.
\<close>

theorem renormalise_geometric_mean:
  assumes positive: "\<forall>j<length sf. 0 < sf ! j"
    and size: "n = length sf"
  shows "\<exists>sf'. renormalise n sf = Inr sf' \<and> length sf' = n \<and> (\<forall>j<n. sf' ! j = sf ! j / log_domain_mean sf)
     \<and> log_domain_mean sf' = 1"
proof -
  have pos: "\<forall>c\<in>set sf. 0 < c" using positive by (auto simp: in_set_conv_nth)
  let ?g = "exp (sum_list (map ln sf) / real n)"
  let ?sf' = "map (\<lambda>c. c / ?g) sf"
  have r: "renormalise n sf = Inr ?sf'" using pos by (rule renormalise_positive)
  have g: "log_domain_mean sf = ?g" by (simp add: log_domain_mean_def fold_add_ln size)
  have "sum_list (map ln ?sf') = sum_list (map ln sf) - real (length sf) * ln ?g"
    using pos by (intro sum_list_ln_div) simp_all
  also have "\<dots> = 0" using size by simp
  finally have "log_domain_mean ?sf' = 1"
    by (simp add: log_domain_mean_def fold_add_ln)
  then show ?thesis using r g size by simp
qed

theorem renormalise_geometric_mean_witness:
  "renormalise 2 [5 / 96, 1 / 30] = Inr [5 / 4, 4 / 5]
   \<and> log_domain_mean [5 / 4, 4 / 5] = 1"
proof -
  have h: "\<forall>j<length [5 / 96, 1 / 30 :: real]. 0 < [5 / 96, 1 / 30 :: real] ! j"
    by (simp add: nth_Cons' less_Suc_eq numeral_2_eq_2)
  have n: "2 = length [5 / 96, 1 / 30 :: real]" by simp
  from renormalise_geometric_mean [OF h n] show ?thesis
    using h ex_renormalise_0 by auto
qed

text \<open>
  C7, one pass of outlier rejection. With the samples finite at the voxels of the mask,
  and at least three such voxels: the quartiles are the sorted values at the indices
  \<open>round (n * 0.25)\<close> and \<open>round (n * 0.75)\<close>, the fences lie 1.6 times their distance
  below the lower and above the upper quartile, the new mask holds exactly the voxels of
  the mask whose value is not strictly outside the fences, and the count of active
  voxels is reduced by one for every voxel removed.
\<close>

theorem outlier_rejection_pass:
  fixes summed_log :: "sample list" and m :: "bool list"
  defines "n \<equiv> length (summed_log_values summed_log m)"
  defines "lower_quartile \<equiv> sort (summed_log_values summed_log m) ! lower_index n"
  defines "upper_quartile \<equiv> sort (summed_log_values summed_log m) ! upper_index n"
  defines "lo \<equiv> lower_quartile - 1.6 * (upper_quartile - lower_quartile)"
  defines "up \<equiv> upper_quartile + 1.6 * (upper_quartile - lower_quartile)"
  assumes finite_in_mask: "\<forall>v<length m. m ! v \<longrightarrow> summed_log ! v \<noteq> NonFin"
    and at_least_three: "3 \<le> count_true m"
  shows "\<exists>m' n'. outlier_rejection summed_log m = Inr (m', n')
           \<and> length m' = length m
           \<and> (\<forall>v<length m. m' ! v = (m ! v \<and> \<not> outside lo up (summed_log ! v)))
           \<and> n' = count_true m - card {v. v < length m \<and> m ! v \<and> outside lo up (summed_log ! v)}
           \<and> n' = count_true m'
           \<and> n = count_true m"
  unfolding n_def lower_quartile_def upper_quartile_def lo_def up_def
  using finite_in_mask at_least_three by (rule outlier_rejection_masked)

theorem outlier_rejection_pass_witness:
  "3 \<le> count_true ex_mask_0
   \<and> outlier_rejection ex_summed_log_0 ex_mask_0 = Inr (ex_mask_1, 6)
   \<and> ex_mask_1 ! 2 = (ex_mask_0 ! 2 \<and> \<not> outside (27 / 10) (363 / 10) (ex_summed_log_0 ! 2))
   \<and> ex_mask_1 ! 3 = (ex_mask_0 ! 3 \<and> \<not> outside (27 / 10) (363 / 10) (ex_summed_log_0 ! 3))
   \<and> card {v. v < length ex_mask_0 \<and> ex_mask_0 ! v
                \<and> outside (27 / 10) (363 / 10) (ex_summed_log_0 ! v)} = 1"
proof -
  have three: "3 \<le> count_true ex_mask_0" by (simp add: ex_count_true)
  have vals: "sort (summed_log_values ex_summed_log_0 ex_mask_0)
              = [8, 8, 31 / 2, 35 / 2, 41 / 2, 47 / 2, 39]"
    by (simp add: summed_log_values_def ex_summed_log_0_def ex_mask_0_def upt8)
  have idx: "lower_index 7 = 2" "upper_index 7 = 5"
    by (simp_all add: lower_index_eq upper_index_eq)
  have q: "sort (summed_log_values ex_summed_log_0 ex_mask_0) ! lower_index 7 = 31 / 2"
    "sort (summed_log_values ex_summed_log_0 ex_mask_0) ! upper_index 7 = 47 / 2"
    unfolding vals idx by simp_all
  have len: "length (summed_log_values ex_summed_log_0 ex_mask_0) = 7"
    using summed_log_values_finite [OF ex_finite_in_mask] by (simp add: ex_count_true)
  have lo: "31 / 2 - 1.6 * (47 / 2 - 31 / 2) = (27 / 10 :: real)"
    and up: "47 / 2 + 1.6 * (47 / 2 - 31 / 2) = (363 / 10 :: real)"
    by simp_all
  from outlier_rejection_pass [OF ex_finite_in_mask three]
  obtain m' n' where r: "outlier_rejection ex_summed_log_0 ex_mask_0 = Inr (m', n')"
    and m': "\<forall>v<length ex_mask_0.
         m' ! v = (ex_mask_0 ! v \<and> \<not> outside (27 / 10) (363 / 10) (ex_summed_log_0 ! v))"
    and n': "n' = count_true ex_mask_0
         - card {v. v < length ex_mask_0 \<and> ex_mask_0 ! v
                \<and> outside (27 / 10) (363 / 10) (ex_summed_log_0 ! v)}"
    unfolding len q lo up by blast
  from r ex_outlier_rejection_0 have eq: "m' = ex_mask_1" "n' = 6" by simp_all
  have "card {v. v < length ex_mask_0 \<and> ex_mask_0 ! v
                \<and> outside (27 / 10) (363 / 10) (ex_summed_log_0 ! v)} = 1"
    using n' eq(2) ex_count_true(1) by linarith
  moreover have "ex_mask_1 ! 2
      = (ex_mask_0 ! 2 \<and> \<not> outside (27 / 10) (363 / 10) (ex_summed_log_0 ! 2))"
    "ex_mask_1 ! 3
      = (ex_mask_0 ! 3 \<and> \<not> outside (27 / 10) (363 / 10) (ex_summed_log_0 ! 3))"
    using m' eq(1) by (simp_all add: ex_mask_length)
  ultimately show ?thesis
    using three ex_outlier_rejection_0 by blast
qed

text \<open>
  C8, the number of passes. When the outer loop returns, with an iteration limit of at
  least one, it has run its body for \<open>iter = 1, \<dots>, max_iter - 1\<close>, that is
  \<open>max_iter - 1\<close> times. An inner loop that returns has run at most \<open>max_iter - 1\<close>
  passes. In the first outer pass the convergence test is skipped, and the inner loop
  runs its passes \<open>1, \<dots>, max_iter - 1\<close>.
\<close>

theorem loop_counts:
  "(1 \<le> max_iter P \<and> outer_loop E P 1 st = Inr st'
      \<longrightarrow> iteration_lines (drop (length (info st)) (info st')) = [1..<max_iter P]
        \<and> length (iteration_lines (drop (length (info st)) (info st'))) = max_iter P - 1)
   \<and> (norm_loop E P iter 1 False st = Inr st''
      \<longrightarrow> length (norm_iteration_lines (drop (length (info st)) (info st''))) \<le> max_iter P - 1)
   \<and> (norm_loop E P 1 1 False st = Inr st'''
      \<longrightarrow> norm_iteration_lines (drop (length (info st)) (info st''')) = [1..<max_iter P])
   \<and> convergence_test 1 previous current = (False, [])"
proof (intro conjI impI)
  assume "1 \<le> max_iter P \<and> outer_loop E P 1 st = Inr st'"
  then obtain evs where "info st' = info st @ evs" "iteration_lines evs = [1..<max_iter P]"
    using outer_loop_info by blast
  then show "iteration_lines (drop (length (info st)) (info st')) = [1..<max_iter P]"
    and "length (iteration_lines (drop (length (info st)) (info st'))) = max_iter P - 1"
    by simp_all
next
  assume "norm_loop E P iter 1 False st = Inr st''"
  from norm_loop_info [OF this] obtain evs k' where
    "info st'' = info st @ evs" "k' \<le> max 1 (max_iter P)" "norm_iteration_lines evs = [1..<k']"
    by blast
  then show "length (norm_iteration_lines (drop (length (info st)) (info st''))) \<le> max_iter P - 1"
    by auto
next
  assume "norm_loop E P 1 1 False st = Inr st'''"
  from norm_loop_info [OF this]
  show "norm_iteration_lines (drop (length (info st)) (info st''')) = [1..<max_iter P]"
    by auto
next
  show "convergence_test 1 previous current = (False, [])" by (simp add: convergence_test_def)
qed

theorem loop_counts_witness:
  "1 \<le> max_iter (ex_problem 2)
   \<and> outer_loop ex_env (ex_problem 2) 1 (initial_state [0, 0] [0, 0] ex_mask_0) = Inr ex_state_fit
   \<and> iteration_lines (info ex_state_fit) = [1..<2]
   \<and> norm_loop ex_env (ex_problem 3) 1 1 False ex_state_0 = Inr ex_state_2
   \<and> norm_iteration_lines (drop (length (info ex_state_0)) (info ex_state_2)) = [1..<3]
   \<and> length (norm_iteration_lines (drop (length (info ex_state_0)) (info ex_state_2))) \<le> 3 - 1"
proof -
  have m: "max_iter (ex_problem 2) = 2" "max_iter (ex_problem 3) = 3"
    by (simp_all add: ex_problem_def)
  have i: "info (initial_state [0, 0] [0, 0] ex_mask_0) = []" by (simp add: initial_state_def)
  note a = loop_counts [where P = "ex_problem 2" and E = ex_env
      and st = "initial_state [0, 0] [0, 0] ex_mask_0" and st' = ex_state_fit]
  note b = loop_counts [where P = "ex_problem 3" and E = ex_env and st = ex_state_0
      and st'' = ex_state_2 and st''' = ex_state_2 and iter = 1]
  from a ex_outer_loop_2 m(1) i have "iteration_lines (info ex_state_fit) = [1..<2]" by simp
  moreover from b ex_norm_loop_3 m(2)
  have "norm_iteration_lines (drop (length (info ex_state_0)) (info ex_state_2)) = [1..<3]"
    "length (norm_iteration_lines (drop (length (info ex_state_0)) (info ex_state_2))) \<le> 3 - 1"
    by simp_all
  ultimately show ?thesis using ex_outer_loop_2 ex_norm_loop_3 m by simp
qed



text \<open>
  C10. For every position \<open>(x, y, z)\<close> the basis function returns the twenty monomials
  \<open>1, x, y, z, x\<^sup>2, y\<^sup>2, z\<^sup>2, xy, xz, yz, x\<^sup>3, y\<^sup>3, z\<^sup>3, x\<^sup>2y, x\<^sup>2z, xy\<^sup>2, y\<^sup>2z, xz\<^sup>2, yz\<^sup>2, xyz\<close>
  in this order.
\<close>

theorem basis_function_monomials:
  "basis_function (x, y, z) =
     [1, x, y, z, x\<^sup>2, y\<^sup>2, z\<^sup>2, x * y, x * z, y * z, x ^ 3, y ^ 3, z ^ 3,
      x\<^sup>2 * y, x\<^sup>2 * z, x * y\<^sup>2, y\<^sup>2 * z, x * z\<^sup>2, y * z\<^sup>2, x * y * z]
   \<and> length (basis_function (x, y, z)) = n_basis_vecs"
  by (simp add: power2_eq_square power3_eq_cube n_basis_vecs_def)

end
